theory Spec2Isabelle
  imports Complex_Main "HOL-Library.Multiset"
begin

section \<open>Numbers\<close>

text \<open>
  The program computes on Python floats and NumPy \<open>float64\<close> arrays. The estimators are
  embedded over \<^typ>\<open>real\<close> in exact arithmetic: the rounding error of binary64
  operations is not part of the model. What \<open>float(...)\<close> can return besides a finite
  number (\<open>nan\<close>, \<open>inf\<close>, \<open>-inf\<close>) is kept for the validation code, which
  compares such values with the configured bounds.
\<close>

datatype pyfloat = Finite real | PosInf | NegInf | NaN

text \<open>\<open>val < c\<close> and \<open>val > c\<close> for a float \<open>val\<close> and a finite constant \<open>c\<close>
  (IEEE comparison: every comparison with \<open>nan\<close> is false).\<close>

fun float_lt :: "pyfloat \<Rightarrow> real \<Rightarrow> bool" where
  "float_lt (Finite x) c = (x < c)"
| "float_lt PosInf c = False"
| "float_lt NegInf c = True"
| "float_lt NaN c = False"

fun float_gt :: "pyfloat \<Rightarrow> real \<Rightarrow> bool" where
  "float_gt (Finite x) c = (c < x)"
| "float_gt PosInf c = True"
| "float_gt NegInf c = False"
| "float_gt NaN c = False"

text \<open>\<open>round(x, ndigits)\<close>: the nearest multiple of \<open>10 ^ (- ndigits)\<close>, a tie going to
  the even neighbour (\<open>rint\<close> of the scaled value, scaled back). The program scales
  and sums in binary64, so for a value within rounding error of a tie (a reading such
  as 12.05) it may round to the other neighbour than this exact definition does. The
  statements below about rounded outputs are therefore bounds with a margin, or they
  concern inputs at which the scaled value is exact in binary64 or away from a tie.\<close>

definition rint :: "real \<Rightarrow> int" where
  "rint x =
     (let f = \<lfloor>x\<rfloor>; d = x - of_int f
      in if d < 1 / 2 then f
         else if 1 / 2 < d then f + 1
         else if even f then f else f + 1)"

definition round_nd :: "real \<Rightarrow> nat \<Rightarrow> real" where
  "round_nd x ndigits = of_int (rint (x * 10 ^ ndigits)) / 10 ^ ndigits"

subsection \<open>The NumPy reductions the estimators call\<close>

text \<open>
  On an empty array \<open>np.min\<close> and \<open>np.max\<close> raise and \<open>np.mean\<close>, \<open>np.median\<close> return
  \<open>nan\<close>; the embedding gives no meaning to these calls, and every statement below is
  about arrays built by \<open>IOPCalculator.__init__\<close>, which have at least 3 elements.
\<close>

definition np_sum :: "real list \<Rightarrow> real" where
  "np_sum a = sum_list a"

definition np_mean :: "real list \<Rightarrow> real" where
  "np_mean a = sum_list a / real (length a)"

definition np_min :: "real list \<Rightarrow> real" where
  "np_min a = Min (set a)"

definition np_max :: "real list \<Rightarrow> real" where
  "np_max a = Max (set a)"

definition np_sort :: "real list \<Rightarrow> real list" where
  "np_sort a = sort a"

definition np_median :: "real list \<Rightarrow> real" where
  "np_median a =
     (let s = sort a; n = length a
      in if odd n then s ! (n div 2)
         else (s ! (n div 2 - 1) + s ! (n div 2)) / 2)"

text \<open>\<open>np.percentile(a, q)\<close> with the default method \<open>linear\<close>: the virtual index is
  \<open>q / 100 * (n - 1)\<close>, and the result interpolates between the two neighbouring order
  statistics.\<close>

definition np_percentile :: "real list \<Rightarrow> real \<Rightarrow> real" where
  "np_percentile a q =
     (let s = sort a; n = length a;
          pos = q / 100 * real (n - 1);
          lo = nat \<lfloor>pos\<rfloor>;
          hi = min (lo + 1) (n - 1);
          g = pos - real lo
      in s ! lo + g * (s ! hi - s ! lo))"

text \<open>\<open>np.std(a, ddof=1)\<close>.\<close>

definition np_std_ddof1 :: "real list \<Rightarrow> real" where
  "np_std_ddof1 a =
     sqrt (sum_list (map (\<lambda>x. (x - np_mean a) ^ 2) a) / real (length a - 1))"

section \<open>The estimators\<close>

definition calculate_safe_iop :: "real list \<Rightarrow> real" where
  "calculate_safe_iop measurements =
     (let n = length measurements
      in if n < 3 then round_nd (np_mean measurements) 1
         else
           let total_sum = np_sum measurements;
               min_val = np_min measurements;
               max_val = np_max measurements;
               safe_iop = (total_sum - min_val - max_val) / real (n - 2)
           in round_nd safe_iop 1)"

definition calculate_possible_iop :: "real list \<Rightarrow> real" where
  "calculate_possible_iop measurements = round_nd (np_median measurements) 1"

definition calculate_clinical_iop :: "real list \<Rightarrow> real" where
  "calculate_clinical_iop measurements =
     round_nd ((np_min measurements + np_max measurements) / 2) 1"

definition calculate_mean_iop :: "real list \<Rightarrow> real" where
  "calculate_mean_iop measurements = round_nd (np_mean measurements) 1"

definition calculate_trimean_iop :: "real list \<Rightarrow> real" where
  "calculate_trimean_iop measurements =
     (let q1 = np_percentile measurements 25;
          median = np_median measurements;
          q3 = np_percentile measurements 75;
          trimean = (q1 + 2 * median + q3) / 4
      in round_nd trimean 1)"

definition calculate_iqm_iop :: "real list \<Rightarrow> real" where
  "calculate_iqm_iop measurements =
     (let sorted_data = np_sort measurements;
          n = length sorted_data;
          lower_idx = nat \<lfloor>real n / 4\<rfloor>;
          upper_idx = nat \<lceil>real (3 * n) / 4\<rceil>;
          iqr_data = drop lower_idx (take upper_idx sorted_data)
      in if length iqr_data = 0 then round_nd (np_mean measurements) 1
         else round_nd (np_mean iqr_data) 1)"

definition calculate_winsorized_iop :: "real list \<Rightarrow> real" where
  "calculate_winsorized_iop measurements =
     (if length measurements < 3 then round_nd (np_mean measurements) 1
      else
        let sorted_data = np_sort measurements;
            n = length sorted_data;
            winsorized = (sorted_data[0 := sorted_data ! 1])[n - 1 := sorted_data ! (n - 2)]
        in round_nd (np_mean winsorized) 1)"

text \<open>The weight vector \<open>1.0 / (1.0 + np.abs(measurements - median))\<close>.\<close>

definition weights :: "real list \<Rightarrow> real list" where
  "weights measurements =
     (let median = np_median measurements
      in map (\<lambda>x. 1 / (1 + \<bar>x - median\<bar>)) measurements)"

definition calculate_weighted_iop :: "real list \<Rightarrow> real" where
  "calculate_weighted_iop measurements =
     (let w = weights measurements;
          weighted_mean = np_sum (map2 (*) w measurements) / np_sum w
      in round_nd weighted_mean 1)"

section \<open>Dispersion statistics\<close>

definition get_range :: "real list \<Rightarrow> real \<times> real" where
  "get_range measurements =
     (round_nd (np_min measurements) 1, round_nd (np_max measurements) 1)"

definition get_variability :: "real list \<Rightarrow> real" where
  "get_variability measurements =
     round_nd (np_max measurements - np_min measurements) 1"

definition get_standard_deviation :: "real list \<Rightarrow> real" where
  "get_standard_deviation measurements = round_nd (np_std_ddof1 measurements) 2"

section \<open>Clinical interpretation\<close>

text \<open>The keys of the two configuration dictionaries. \<open>CLINICAL_RANGES\<close> is scanned in
  insertion order, so it is a list of pairs; \<open>INTERPRETATION_LABELS\<close> has an entry for
  every key.\<close>

datatype category =
  severe_hypotony | moderate_hypotony | mild_hypotony | normal
  | borderline_elevated | elevated | severely_elevated

definition CLINICAL_RANGES :: "(category \<times> real \<times> real) list" where
  "CLINICAL_RANGES =
     [(severe_hypotony, 0, 6),
      (moderate_hypotony, 6, 8),
      (mild_hypotony, 8, 10),
      (normal, 10, 21),
      (borderline_elevated, 21, 24),
      (elevated, 24, 30),
      (severely_elevated, 30, 100)]"

fun INTERPRETATION_LABELS :: "category \<Rightarrow> string" where
  "INTERPRETATION_LABELS severe_hypotony = ''Severe Hypotony''"
| "INTERPRETATION_LABELS moderate_hypotony = ''Moderate Hypotony''"
| "INTERPRETATION_LABELS mild_hypotony = ''Mild Hypotony''"
| "INTERPRETATION_LABELS normal = ''Normal Range''"
| "INTERPRETATION_LABELS borderline_elevated = ''Borderline Elevated''"
| "INTERPRETATION_LABELS elevated = ''Elevated''"
| "INTERPRETATION_LABELS severely_elevated = ''Severely Elevated''"

definition VARIABILITY_excellent :: real where "VARIABILITY_excellent = 2"
definition VARIABILITY_good :: real where "VARIABILITY_good = 4"
definition VARIABILITY_fair :: real where "VARIABILITY_fair = 6"

definition MIN_MEASUREMENTS :: nat where "MIN_MEASUREMENTS = 3"
definition MIN_IOP_VALUE :: real where "MIN_IOP_VALUE = 0"
definition MAX_IOP_VALUE :: real where "MAX_IOP_VALUE = 100"

fun scan_ranges :: "(category \<times> real \<times> real) list \<Rightarrow> real \<Rightarrow> string" where
  "scan_ranges [] iop_value = INTERPRETATION_LABELS severely_elevated"
| "scan_ranges ((cat, min_val, max_val) # rest) iop_value =
     (if min_val \<le> iop_value \<and> iop_value < max_val then INTERPRETATION_LABELS cat
      else scan_ranges rest iop_value)"

definition interpret_iop :: "real \<Rightarrow> string" where
  "interpret_iop iop_value = scan_ranges CLINICAL_RANGES iop_value"

definition get_confidence_note :: "real \<Rightarrow> string" where
  "get_confidence_note variability =
     (if variability \<le> VARIABILITY_excellent
        then ''Excellent measurement consistency - High confidence''
      else if variability \<le> VARIABILITY_good
        then ''Good measurement consistency - Moderate confidence''
      else if variability \<le> VARIABILITY_fair
        then ''Fair measurement consistency - Consider additional measurements''
      else ''High variability detected - Additional measurements recommended'')"

section \<open>The calculator\<close>

datatype message =
  Input_cannot_be_empty
  | No_valid_values_found
  | Could_not_convert string
  | Invalid_number_format
  | Out_of_acceptable_range pyfloat
  | At_least_3_required
  | Too_few_measurements nat

text \<open>Every failure of the program is a Python \<open>ValueError\<close>; the failures differ in
  their message only.\<close>

datatype error = ValueError message

record IOPCalculator =
  measurements :: "real list"
  n :: nat

definition IOPCalculator_init :: "real list \<Rightarrow> error + IOPCalculator" where
  "IOPCalculator_init ms =
     (if length ms < 3 then Inl (ValueError At_least_3_required)
      else Inr \<lparr>measurements = sort ms, n = length (sort ms)\<rparr>)"

record results =
  safe_iop :: real
  possible_iop :: real
  clinical_iop :: real
  mean_iop :: real
  trimean_iop :: real
  iqm_iop :: real
  winsorized_iop :: real
  weighted_iop :: real
  min_iop :: real
  max_iop :: real
  variability :: real
  std_dev :: real
  n_measurements :: nat

definition calculate_all :: "IOPCalculator \<Rightarrow> results" where
  "calculate_all self =
     (let (min_val, max_val) = get_range (measurements self)
      in \<lparr>safe_iop = calculate_safe_iop (measurements self),
          possible_iop = calculate_possible_iop (measurements self),
          clinical_iop = calculate_clinical_iop (measurements self),
          mean_iop = calculate_mean_iop (measurements self),
          trimean_iop = calculate_trimean_iop (measurements self),
          iqm_iop = calculate_iqm_iop (measurements self),
          winsorized_iop = calculate_winsorized_iop (measurements self),
          weighted_iop = calculate_weighted_iop (measurements self),
          min_iop = min_val,
          max_iop = max_val,
          variability = get_variability (measurements self),
          std_dev = get_standard_deviation (measurements self),
          n_measurements = n self\<rparr>)"

text \<open>\<open>IOPCalculator(measurements).calculate_all()\<close>, as the application calls it.\<close>

definition compute :: "real list \<Rightarrow> error + results" where
  "compute ms =
     (case IOPCalculator_init ms of
        Inl e \<Rightarrow> Inl e
      | Inr self \<Rightarrow> Inr (calculate_all self))"

section \<open>Input validation\<close>

text \<open>
  A Python string is embedded as a list of characters with code points below 256.
  \<open>str.strip()\<close> removes the white space of that range from both ends, and
  \<open>str.split(',')\<close> cuts at every comma, keeping empty fields.
\<close>

definition is_space :: "char \<Rightarrow> bool" where
  "is_space c =
     (let k = (of_char c :: nat)
      in (9 \<le> k \<and> k \<le> 13) \<or> (28 \<le> k \<and> k \<le> 32) \<or> k = 133 \<or> k = 160)"

definition strip :: "string \<Rightarrow> string" where
  "strip s = rev (dropWhile is_space (rev (dropWhile is_space s)))"

fun split_comma :: "string \<Rightarrow> string list" where
  "split_comma [] = [[]]"
| "split_comma (c # cs) =
     (if c = CHR '','' then [] # split_comma cs
      else (c # hd (split_comma cs)) # tl (split_comma cs))"

text \<open>The non-blank fields of the input, stripped: what the list comprehension of
  \<open>parse_iop_input\<close> passes to \<open>float\<close>.\<close>

definition tokens :: "string \<Rightarrow> string list" where
  "tokens input_string =
     map strip (filter (\<lambda>x. strip x \<noteq> []) (split_comma input_string))"

text \<open>The comprehension converts the tokens from left to right; the first token that
  \<open>float\<close> refuses raises \<open>ValueError("could not convert string to float: ...")\<close>.
  The builtin \<open>float\<close> is the parameter \<open>flt\<close>.\<close>

fun convert_all :: "(string \<Rightarrow> pyfloat option) \<Rightarrow> string list \<Rightarrow> error + pyfloat list" where
  "convert_all flt [] = Inr []"
| "convert_all flt (t # ts) =
     (case flt t of
        None \<Rightarrow> Inl (ValueError (Could_not_convert t))
      | Some v \<Rightarrow>
          (case convert_all flt ts of
             Inl e \<Rightarrow> Inl e
           | Inr vs \<Rightarrow> Inr (v # vs)))"

definition out_of_range :: "pyfloat \<Rightarrow> bool" where
  "out_of_range val = (float_lt val MIN_IOP_VALUE \<or> float_gt val MAX_IOP_VALUE)"

text \<open>The body of the \<open>try\<close> block of \<open>parse_iop_input\<close>.\<close>

definition parse_body :: "(string \<Rightarrow> pyfloat option) \<Rightarrow> string \<Rightarrow> error + pyfloat list" where
  "parse_body flt input_string =
     (case convert_all flt (tokens input_string) of
        Inl e \<Rightarrow> Inl e
      | Inr values \<Rightarrow>
          if values = [] then Inl (ValueError No_valid_values_found)
          else
            (case find out_of_range values of
               Some val \<Rightarrow> Inl (ValueError (Out_of_acceptable_range val))
             | None \<Rightarrow> Inr values))"

text \<open>The \<open>except ValueError\<close> clause: a message that contains \<open>could not convert\<close>
  is replaced, every other error is raised again.\<close>

fun on_value_error :: "error + pyfloat list \<Rightarrow> error + pyfloat list" where
  "on_value_error (Inl (ValueError (Could_not_convert t))) = Inl (ValueError Invalid_number_format)"
| "on_value_error r = r"

definition parse_iop_input :: "(string \<Rightarrow> pyfloat option) \<Rightarrow> string \<Rightarrow> error + pyfloat list" where
  "parse_iop_input flt input_string =
     (if input_string = [] \<or> strip input_string = []
        then Inl (ValueError Input_cannot_be_empty)
      else on_value_error (parse_body flt input_string))"

definition validate_measurement_count :: "pyfloat list \<Rightarrow> error + unit" where
  "validate_measurement_count ms =
     (if length ms < MIN_MEASUREMENTS
        then Inl (ValueError (Too_few_measurements (length ms)))
      else Inr ())"

definition validate_measurements :: "(string \<Rightarrow> pyfloat option) \<Rightarrow> string \<Rightarrow> error + pyfloat list" where
  "validate_measurements flt input_string =
     (case parse_iop_input flt input_string of
        Inl e \<Rightarrow> Inl e
      | Inr ms \<Rightarrow>
          (case validate_measurement_count ms of
             Inl e \<Rightarrow> Inl e
           | Inr u \<Rightarrow> Inr ms))"

subsection \<open>The builtin \<open>float\<close> on strings\<close>

text \<open>
  \<open>float(s)\<close> strips white space, then accepts an optional sign followed by \<open>inf\<close>,
  \<open>infinity\<close> or \<open>nan\<close> in any letter case, or by a decimal literal (digits with an
  optional fraction and an optional exponent). A single underscore may stand between
  two digits. The value of a decimal literal is its exact value here; Python rounds
  it to the nearest binary64 number.
\<close>

definition is_digit :: "char \<Rightarrow> bool" where
  "is_digit c = (let k = (of_char c :: nat) in 48 \<le> k \<and> k \<le> 57)"

definition digit_val :: "char \<Rightarrow> nat" where
  "digit_val c = of_char c - 48"

definition digits_val :: "string \<Rightarrow> nat" where
  "digits_val ds = foldl (\<lambda>acc c. 10 * acc + digit_val c) 0 ds"

definition lower :: "char \<Rightarrow> char" where
  "lower c =
     (let k = (of_char c :: nat)
      in if 65 \<le> k \<and> k \<le> 90 then char_of (k + 32) else c)"

fun underscores_ok :: "char \<Rightarrow> string \<Rightarrow> bool" where
  "underscores_ok prev [] = True"
| "underscores_ok prev (c # cs) =
     (if c = CHR ''_''
        then is_digit prev \<and> (case cs of [] \<Rightarrow> False | d # ds \<Rightarrow> is_digit d)
             \<and> underscores_ok c cs
      else underscores_ok c cs)"

text \<open>The exponent part: empty, or \<open>e\<close>/\<open>E\<close>, an optional sign and at least one digit.\<close>

definition exponent :: "string \<Rightarrow> int option" where
  "exponent r =
     (case r of
        [] \<Rightarrow> Some 0
      | c # r1 \<Rightarrow>
          if c = CHR ''e'' \<or> c = CHR ''E'' then
            (let (neg, ds) =
               (case r1 of
                  [] \<Rightarrow> (False, [])
                | d # r2 \<Rightarrow>
                    if d = CHR ''-'' then (True, r2)
                    else if d = CHR ''+'' then (False, r2)
                    else (False, r1))
             in if ds \<noteq> [] \<and> list_all is_digit ds
                  then Some (if neg then - int (digits_val ds) else int (digits_val ds))
                else None)
          else None)"

definition decimal :: "string \<Rightarrow> real option" where
  "decimal u =
     (let ip = takeWhile is_digit u;
          r1 = dropWhile is_digit u;
          (fp, r2) =
            (case r1 of
               [] \<Rightarrow> ([], [])
             | c # r \<Rightarrow>
                 if c = CHR ''.'' then (takeWhile is_digit r, dropWhile is_digit r)
                 else ([], r1))
      in if ip = [] \<and> fp = [] then None
         else
           (case exponent r2 of
              None \<Rightarrow> None
            | Some e \<Rightarrow>
                (let m = real (digits_val (ip @ fp));
                     k = e - int (length fp)
                 in Some (if 0 \<le> k then m * 10 ^ nat k else m / 10 ^ nat (- k)))))"

definition py_float :: "string \<Rightarrow> pyfloat option" where
  "py_float s0 =
     (let s = strip s0
      in if \<not> underscores_ok CHR ''_'' s then None
         else
           (let t = filter (\<lambda>c. c \<noteq> CHR ''_'') s;
                (neg, u) =
                  (case t of
                     [] \<Rightarrow> (False, [])
                   | c # r \<Rightarrow>
                       if c = CHR ''-'' then (True, r)
                       else if c = CHR ''+'' then (False, r)
                       else (False, t));
                l = map lower u
            in if l = ''inf'' \<or> l = ''infinity'' then Some (if neg then NegInf else PosInf)
               else if l = ''nan'' then Some NaN
               else
                 (case decimal u of
                    None \<Rightarrow> None
                  | Some r \<Rightarrow> Some (Finite (if neg then - r else r)))))"

section \<open>The intervals of the specification\<close>

text \<open>The seven clinical intervals as the specification lists them: lower bound, upper
  bound (\<open>None\<close> for the open-ended last interval) and label.\<close>

definition clinical_intervals :: "(real \<times> real option \<times> string) list" where
  "clinical_intervals =
     [(0, Some 6, ''Severe Hypotony''),
      (6, Some 8, ''Moderate Hypotony''),
      (8, Some 10, ''Mild Hypotony''),
      (10, Some 21, ''Normal Range''),
      (21, Some 24, ''Borderline Elevated''),
      (24, Some 30, ''Elevated''),
      (30, None, ''Severely Elevated'')]"

fun in_interval :: "real \<Rightarrow> real \<times> real option \<times> string \<Rightarrow> bool" where
  "in_interval v (lo, None, l) = (lo \<le> v)"
| "in_interval v (lo, Some hi, l) = (lo \<le> v \<and> v < hi)"

section \<open>Classification\<close>

lemmas interp_defs = interpret_iop_def CLINICAL_RANGES_def clinical_intervals_def

lemma interpret_iop_top: "30 \<le> v \<Longrightarrow> interpret_iop v = ''Severely Elevated''"
  by (cases "v < 100") (simp_all add: interp_defs)

lemma interpret_iop_label:
  assumes "0 \<le> v"
  shows "map (snd \<circ> snd) (filter (in_interval v) clinical_intervals) = [interpret_iop v]"
proof -
  consider "v < 6" | "6 \<le> v" "v < 8" | "8 \<le> v" "v < 10" | "10 \<le> v" "v < 21"
    | "21 \<le> v" "v < 24" | "24 \<le> v" "v < 30" | "30 \<le> v" "v < 100" | "100 \<le> v"
    by linarith
  then show ?thesis
    using assms by cases (simp_all add: interp_defs)
qed

text \<open>
  Claim C1. For a value \<open>v \<ge> 0\<close>, exactly one of the seven intervals of the
  specification contains \<open>v\<close>, and \<open>interpret_iop v\<close> is its label; every value from 30
  on, with no upper bound, is labelled \<open>Severely Elevated\<close>; and the four values at the
  seams 10 and 21 get the labels the specification lists.
\<close>

theorem interpret_iop_partition:
  assumes "0 \<le> v"
  shows "map (snd \<circ> snd) (filter (in_interval v) clinical_intervals) = [interpret_iop v]
    \<and> (30 \<le> v \<longrightarrow> interpret_iop v = ''Severely Elevated'')
    \<and> interpret_iop 9.9 = ''Mild Hypotony''
    \<and> interpret_iop 10.0 = ''Normal Range''
    \<and> interpret_iop 20.999 = ''Normal Range''
    \<and> interpret_iop 21.0 = ''Borderline Elevated''"
proof -
  have "interpret_iop 9.9 = ''Mild Hypotony''" by (simp add: interp_defs)
  moreover have "interpret_iop 10.0 = ''Normal Range''" by (simp add: interp_defs)
  moreover have "interpret_iop 20.999 = ''Normal Range''" by (simp add: interp_defs)
  moreover have "interpret_iop 21.0 = ''Borderline Elevated''" by (simp add: interp_defs)
  ultimately show ?thesis
    using interpret_iop_label [OF assms] interpret_iop_top [of v] by simp
qed

text \<open>The theorem of C1 at \<open>v = 250\<close>, beyond the table's last bound of 100.\<close>

theorem interpret_iop_partition_witness:
  "map (snd \<circ> snd) (filter (in_interval 250) clinical_intervals) = [interpret_iop 250]
    \<and> interpret_iop 250 = ''Severely Elevated''"
  using interpret_iop_partition [of 250] by simp

text \<open>
  Claim C10. For a value below 0 no range of \<open>CLINICAL_RANGES\<close> passes the test
  \<open>min_val <= iop_value < max_val\<close>, and \<open>interpret_iop\<close> returns the default label
  \<open>Severely Elevated\<close>.
\<close>

theorem interpret_iop_negative:
  assumes "v < 0"
  shows "filter (\<lambda>(cat, min_val, max_val). min_val \<le> v \<and> v < max_val) CLINICAL_RANGES = []
    \<and> interpret_iop v = INTERPRETATION_LABELS severely_elevated
    \<and> interpret_iop v = ''Severely Elevated''"
  using assms by (simp add: interp_defs)

theorem interpret_iop_negative_witness:
  "interpret_iop (- 5) = ''Severely Elevated''"
  using interpret_iop_negative [of "- 5"] by simp

section \<open>Validation\<close>

lemma convert_all_Inr_D:
  "convert_all flt ts = Inr vs \<Longrightarrow> map flt ts = map Some vs"
  by (induction ts arbitrary: vs) (auto split: option.splits sum.splits)

lemma convert_all_Inr_I:
  "map flt ts = map Some vs \<Longrightarrow> convert_all flt ts = Inr vs"
  by (induction ts arbitrary: vs) auto

lemma convert_all_Inr_iff:
  "convert_all flt ts = Inr vs \<longleftrightarrow> map flt ts = map Some vs"
  using convert_all_Inr_D convert_all_Inr_I by blast

lemma convert_all_Inl:
  "convert_all flt ts = Inl e \<Longrightarrow> \<exists>t. e = ValueError (Could_not_convert t)"
  by (induction ts arbitrary: e) (auto split: option.splits sum.splits)

lemma convert_all_total:
  "list_all (\<lambda>t. flt t \<noteq> None) ts \<Longrightarrow> convert_all flt ts = Inr (map (the \<circ> flt) ts)"
  by (induction ts) auto

lemma convert_all_fails:
  "\<not> list_all (\<lambda>t. flt t \<noteq> None) ts \<Longrightarrow> \<exists>t. convert_all flt ts = Inl (ValueError (Could_not_convert t))"
  by (induction ts) (auto split: option.splits sum.splits)

lemma strip_Nil_iff: "strip s = [] \<longleftrightarrow> list_all is_space s"
proof
  assume "strip s = []"
  then have a: "\<forall>x\<in>set (dropWhile is_space s). is_space x"
    by (simp add: strip_def dropWhile_eq_Nil_conv)
  have "dropWhile is_space s = []"
  proof (rule ccontr)
    assume ne: "dropWhile is_space s \<noteq> []"
    then have "\<not> is_space (hd (dropWhile is_space s))" by (rule hd_dropWhile)
    moreover have "hd (dropWhile is_space s) \<in> set (dropWhile is_space s)" using ne by simp
    ultimately show False using a by blast
  qed
  then show "list_all is_space s" by (simp add: dropWhile_eq_Nil_conv list_all_iff)
next
  assume "list_all is_space s"
  then have "dropWhile is_space s = []" by (simp add: dropWhile_eq_Nil_conv list_all_iff)
  then show "strip s = []" by (auto simp: strip_def dest: set_dropWhileD)
qed

lemma comma_not_space: "\<not> is_space CHR '',''"
  by (simp add: is_space_def)

lemma split_comma_no_comma: "CHR '','' \<notin> set s \<Longrightarrow> split_comma s = [s]"
  by (induction s) auto

lemma blank_no_tokens: "strip s = [] \<Longrightarrow> tokens s = []"
proof -
  assume b: "strip s = []"
  then have "list_all is_space s" by (simp add: strip_Nil_iff)
  then have "CHR '','' \<notin> set s" using comma_not_space by (auto simp: list_all_iff)
  then have "split_comma s = [s]" by (rule split_comma_no_comma)
  with b show ?thesis by (simp add: tokens_def)
qed

lemma validate_measurements_cases:
  "validate_measurements flt s =
     (if tokens s = []
        then Inl (ValueError (if strip s = [] then Input_cannot_be_empty else No_valid_values_found))
      else if \<not> list_all (\<lambda>t. flt t \<noteq> None) (tokens s)
        then Inl (ValueError Invalid_number_format)
      else
        (case find out_of_range (map (the \<circ> flt) (tokens s)) of
           Some val \<Rightarrow> Inl (ValueError (Out_of_acceptable_range val))
         | None \<Rightarrow>
             if length (tokens s) < 3
               then Inl (ValueError (Too_few_measurements (length (tokens s))))
             else Inr (map (the \<circ> flt) (tokens s))))"
proof (cases "strip s = []")
  case True
  then show ?thesis
    by (auto simp: validate_measurements_def parse_iop_input_def blank_no_tokens)
next
  case ne: False
  then have s: "s \<noteq> []" by (auto simp: strip_def)
  show ?thesis
  proof (cases "list_all (\<lambda>t. flt t \<noteq> None) (tokens s)")
    case True
    then show ?thesis
      using ne s
      by (auto simp: validate_measurements_def parse_iop_input_def parse_body_def
          convert_all_total validate_measurement_count_def MIN_MEASUREMENTS_def
          split: option.splits)
  next
    case False
    then have t: "tokens s \<noteq> []" by auto
    from convert_all_fails [OF False] obtain t where
      "convert_all flt (tokens s) = Inl (ValueError (Could_not_convert t))" ..
    then show ?thesis
      using ne s False t
      by (simp add: validate_measurements_def parse_iop_input_def parse_body_def)
  qed
qed


text \<open>
  Claim C2, as the code has it. When validation succeeds, the list it returns holds the
  values of the tokens in their order of entry: \<open>validate_measurements\<close> does not sort.
  (The sorted copy is made later, by \<open>IOPCalculator.__init__\<close>.)
\<close>

theorem validate_measurements_entry_order:
  assumes "validate_measurements flt s = Inr ms"
  shows "map Some ms = map flt (tokens s)"
  using assms
  by (auto simp: validate_measurements_def parse_iop_input_def parse_body_def convert_all_Inr_iff
      split: sum.splits if_splits option.splits error.splits message.splits
      elim!: on_value_error.elims)

theorem validate_measurements_entry_order_witness:
  "map Some [Finite 14, Finite 12, Finite 13] = map py_float (tokens ''14, 12, 13'')"
proof -
  have "validate_measurements py_float ''14, 12, 13'' = Inr [Finite 14, Finite 12, Finite 13]"
    by code_simp
  then show ?thesis by (rule validate_measurements_entry_order)
qed

text \<open>Against C2 as stated: the input \<open>14, 12, 13\<close> is accepted and comes back as
  \<open>[14, 12, 13]\<close>, which is not in ascending order.\<close>

theorem validate_measurements_not_sorted:
  "validate_measurements py_float ''14, 12, 13'' = Inr (map Finite [14, 12, 13])
    \<and> map Finite [14, 12, 13] \<noteq> map Finite (sort [14, 12, 13])"
proof -
  have "validate_measurements py_float ''14, 12, 13'' = Inr (map Finite [14, 12, 13])"
    by code_simp
  then show ?thesis by simp
qed

text \<open>
  Claim C3 at the input \<open>nan, nan, nan\<close>. \<open>float\<close> accepts each token, the value
  \<open>nan\<close> is neither below 0 nor above 100, so the range test lets it through and the
  validation succeeds with three values none of which lies in the range from 0 to 100.
\<close>

theorem validate_measurements_nan:
  "validate_measurements py_float ''nan, nan, nan'' = Inr [NaN, NaN, NaN]"
  by code_simp

section \<open>Rounding and the range of a sample\<close>

lemma rint_bounds: "x - 1 / 2 \<le> of_int (rint x)" "of_int (rint x) \<le> x + 1 / 2"
  unfolding rint_def Let_def by (auto; linarith)+

lemma rint_of_int: "rint (of_int k) = k"
  by (simp add: rint_def)

lemma round_nd_close: "\<bar>round_nd y 1 - y\<bar> \<le> 1 / 20"
proof -
  define r where "r = (of_int (rint (y * 10)) :: real)"
  have b: "y * 10 - 1 / 2 \<le> r" "r \<le> y * 10 + 1 / 2"
    unfolding r_def by (rule rint_bounds)+
  have e: "round_nd y 1 = r / 10" by (simp add: round_nd_def r_def)
  show ?thesis unfolding e using b by linarith
qed

lemma np_min_le: "x \<in> set a \<Longrightarrow> np_min a \<le> x"
  by (simp add: np_min_def)

lemma np_max_ge: "x \<in> set a \<Longrightarrow> x \<le> np_max a"
  by (simp add: np_max_def)

lemma np_min_in: "a \<noteq> [] \<Longrightarrow> np_min a \<in> set a"
  unfolding np_min_def by (rule Min_in) auto

lemma np_max_in: "a \<noteq> [] \<Longrightarrow> np_max a \<in> set a"
  unfolding np_max_def by (rule Max_in) auto

lemma sum_list_lower: "\<forall>x\<in>set a. lo \<le> x \<Longrightarrow> real (length a) * lo \<le> sum_list a"
proof (induction a)
  case Nil
  then show ?case by simp
next
  case (Cons x a)
  then have "lo \<le> x" "real (length a) * lo \<le> sum_list a" by simp_all
  then show ?case by (simp add: algebra_simps add_mono)
qed

lemma sum_list_upper: "\<forall>x\<in>set a. x \<le> hi \<Longrightarrow> sum_list a \<le> real (length a) * hi"
proof (induction a)
  case Nil
  then show ?case by simp
next
  case (Cons x a)
  then have "x \<le> hi" "sum_list a \<le> real (length a) * hi" by simp_all
  then show ?case by (simp add: algebra_simps add_mono)
qed

lemma np_mean_bounds:
  assumes "a \<noteq> []" and "\<And>x. x \<in> set a \<Longrightarrow> lo \<le> x \<and> x \<le> hi"
  shows "lo \<le> np_mean a" and "np_mean a \<le> hi"
proof -
  have n: "0 < real (length a)" using assms(1) by simp
  have "real (length a) * lo \<le> sum_list a" using assms(2) by (intro sum_list_lower) simp
  then show "lo \<le> np_mean a" using n by (simp add: np_mean_def pos_le_divide_eq mult.commute)
  have "sum_list a \<le> real (length a) * hi" using assms(2) by (intro sum_list_upper) simp
  then show "np_mean a \<le> hi" using n by (simp add: np_mean_def pos_divide_le_eq mult.commute)
qed

lemma sort_nth_in: "i < length a \<Longrightarrow> sort a ! i \<in> set a"
  by (metis length_sort nth_mem set_sort)

lemma sort_nth_bounds:
  assumes "i < length a"
  shows "np_min a \<le> sort a ! i" and "sort a ! i \<le> np_max a"
  using sort_nth_in [OF assms] by (simp_all add: np_min_le np_max_ge)

lemma np_median_bounds:
  assumes "a \<noteq> []"
  shows "np_min a \<le> np_median a" and "np_median a \<le> np_max a"
proof -
  have n: "0 < length a" using assms by simp
  then have i: "length a div 2 < length a" "length a div 2 - 1 < length a" by linarith+
  note b = sort_nth_bounds [OF i(1)] sort_nth_bounds [OF i(2)]
  show "np_min a \<le> np_median a" using b by (simp add: np_median_def Let_def)
  show "np_median a \<le> np_max a" using b by (simp add: np_median_def Let_def)
qed

lemma sum_list_remove1_real:
  fixes a :: "real list"
  shows "x \<in> set a \<Longrightarrow> sum_list (remove1 x a) = sum_list a - x"
  by (induction a) auto

lemma safe_bounds:
  assumes n: "3 \<le> length a"
  shows "np_min a \<le> (np_sum a - np_min a - np_max a) / real (length a - 2)"
    and "(np_sum a - np_min a - np_max a) / real (length a - 2) \<le> np_max a"
proof -
  have ne: "a \<noteq> []" using n by auto
  let ?m = "np_min a" and ?M = "np_max a"
  have len: "real (length a - 1) = real (length a - 2) + 1" using n by (simp add: of_nat_diff)
  have pos: "0 < real (length a - 2)" using n by simp
  have "\<forall>x\<in>set (remove1 ?M a). ?m \<le> x"
    using np_min_le notin_set_remove1 by metis
  then have "real (length (remove1 ?M a)) * ?m \<le> sum_list (remove1 ?M a)"
    by (rule sum_list_lower)
  then have lo: "real (length a - 2) * ?m \<le> np_sum a - ?m - ?M"
    using np_max_in [OF ne] len
    by (simp add: sum_list_remove1_real length_remove1 np_sum_def algebra_simps)
  have "\<forall>x\<in>set (remove1 ?m a). x \<le> ?M"
    using np_max_ge notin_set_remove1 by metis
  then have "sum_list (remove1 ?m a) \<le> real (length (remove1 ?m a)) * ?M"
    by (rule sum_list_upper)
  then have hi: "np_sum a - ?m - ?M \<le> real (length a - 2) * ?M"
    using np_min_in [OF ne] len
    by (simp add: sum_list_remove1_real length_remove1 np_sum_def algebra_simps)
  show "?m \<le> (np_sum a - ?m - ?M) / real (length a - 2)"
    using lo pos by (simp add: pos_le_divide_eq mult.commute)
  show "(np_sum a - ?m - ?M) / real (length a - 2) \<le> ?M"
    using hi pos by (simp add: pos_divide_le_eq mult.commute)
qed

lemma lerp_bounds:
  fixes g :: real
  assumes "0 \<le> g" "g \<le> 1" "m \<le> x" "x \<le> M" "m \<le> y" "y \<le> M"
  shows "m \<le> x + g * (y - x)" and "x + g * (y - x) \<le> M"
proof -
  have e: "x + g * (y - x) = (1 - g) * x + g * y" by (simp add: algebra_simps)
  have "(1 - g) * m \<le> (1 - g) * x" "g * m \<le> g * y"
    using assms by (simp_all add: mult_left_mono)
  then show "m \<le> x + g * (y - x)" unfolding e by (simp add: algebra_simps)
  have "(1 - g) * x \<le> (1 - g) * M" "g * y \<le> g * M"
    using assms by (simp_all add: mult_left_mono)
  then show "x + g * (y - x) \<le> M" unfolding e by (simp add: algebra_simps)
qed

lemma np_percentile_bounds:
  assumes ne: "a \<noteq> []" and q: "0 \<le> q" "q \<le> 100"
  shows "np_min a \<le> np_percentile a q" and "np_percentile a q \<le> np_max a"
proof -
  define pos where "pos = q / 100 * real (length a - 1)"
  define lo where "lo = nat \<lfloor>pos\<rfloor>"
  define hi where "hi = min (lo + 1) (length a - 1)"
  define g where "g = pos - real lo"
  have p0: "0 \<le> pos" using q by (simp add: pos_def)
  have "q / 100 \<le> 1" using q by simp
  then have "q / 100 * real (length a - 1) \<le> 1 * real (length a - 1)"
    by (intro mult_right_mono) simp_all
  then have p1: "pos \<le> real (length a - 1)" by (simp add: pos_def)
  have fl: "real lo = of_int \<lfloor>pos\<rfloor>" using p0 by (simp add: lo_def)
  have g: "0 \<le> g" "g \<le> 1" unfolding g_def fl by linarith+
  have "real lo \<le> real (length a - 1)" using p1 unfolding fl by linarith
  then have "lo \<le> length a - 1" by simp
  then have lo: "lo < length a" using ne by (cases a) auto
  have hi: "hi < length a" using ne unfolding hi_def by (cases a) auto
  have e: "np_percentile a q = sort a ! lo + g * (sort a ! hi - sort a ! lo)"
    by (simp add: np_percentile_def Let_def pos_def lo_def hi_def g_def)
  show "np_min a \<le> np_percentile a q" unfolding e
    using g sort_nth_bounds [OF lo] sort_nth_bounds [OF hi] by (intro lerp_bounds)
  show "np_percentile a q \<le> np_max a" unfolding e
    using g sort_nth_bounds [OF lo] sort_nth_bounds [OF hi] by (intro lerp_bounds)
qed

lemma iqm_value:
  assumes ne: "a \<noteq> []"
  shows "\<exists>y. np_min a \<le> y \<and> y \<le> np_max a \<and> calculate_iqm_iop a = round_nd y 1"
proof -
  define d where "d = drop (nat \<lfloor>real (length (np_sort a)) / 4\<rfloor>)
    (take (nat \<lceil>real (3 * length (np_sort a)) / 4\<rceil>) (np_sort a))"
  have e: "calculate_iqm_iop a =
      (if length d = 0 then round_nd (np_mean a) 1 else round_nd (np_mean d) 1)"
    unfolding calculate_iqm_iop_def Let_def d_def ..
  have "set d \<subseteq> set (np_sort a)"
    unfolding d_def using set_drop_subset set_take_subset by (rule subset_trans)
  then have sub: "set d \<subseteq> set a" by (simp add: np_sort_def)
  let ?b = "if length d = 0 then a else d"
  have b: "?b \<noteq> []" "\<And>x. x \<in> set ?b \<Longrightarrow> np_min a \<le> x \<and> x \<le> np_max a"
    using ne sub by (auto simp: np_min_le np_max_ge split: if_splits)
  have "np_min a \<le> np_mean ?b" using b by (rule np_mean_bounds)
  moreover have "np_mean ?b \<le> np_max a" using b by (rule np_mean_bounds)
  moreover have "calculate_iqm_iop a = round_nd (np_mean ?b) 1"
    unfolding e by (simp split: if_splits)
  ultimately show ?thesis by blast
qed

lemma winsorized_bounds:
  assumes n: "3 \<le> length a"
  defines "w \<equiv> ((sort a)[0 := sort a ! 1])[length a - 1 := sort a ! (length a - 2)]"
  shows "np_min a \<le> np_mean w" and "np_mean w \<le> np_max a"
proof -
  have i: "1 < length a" "length a - 2 < length a" using n by simp_all
  have "set w \<subseteq> insert (sort a ! (length a - 2)) (insert (sort a ! 1) (set (sort a)))"
    unfolding w_def
    by (meson set_update_subset_insert insert_mono subset_trans)
  then have sub: "set w \<subseteq> set a"
    using sort_nth_in [OF i(1)] sort_nth_in [OF i(2)] by auto
  have "length w = length a" by (simp add: w_def)
  then have "w \<noteq> []" using n by auto
  then have b: "w \<noteq> []" "\<And>x. x \<in> set w \<Longrightarrow> np_min a \<le> x \<and> x \<le> np_max a"
    using sub by (auto simp: np_min_le np_max_ge)
  show "np_min a \<le> np_mean w" using b by (rule np_mean_bounds)
  show "np_mean w \<le> np_max a" using b by (rule np_mean_bounds)
qed

lemma weights_eq: "weights a = map (\<lambda>x. 1 / (1 + \<bar>x - np_median a\<bar>)) a"
  by (simp add: weights_def)

lemma weights_pos: "w \<in> set (weights a) \<Longrightarrow> 0 < w"
  by (auto simp: weights_eq)

lemma sum_list_pos_real:
  fixes a :: "real list"
  shows "a \<noteq> [] \<Longrightarrow> \<forall>x\<in>set a. 0 < x \<Longrightarrow> 0 < sum_list a"
proof (induction a)
  case Nil
  then show ?case by simp
next
  case (Cons x a)
  then show ?case by (cases a) (auto intro: add_pos_pos)
qed

lemma weights_sum_pos: "a \<noteq> [] \<Longrightarrow> 0 < np_sum (weights a)"
  unfolding np_sum_def
  by (rule sum_list_pos_real) (auto simp: weights_eq)

lemma weighted_products:
  "map2 (*) (weights a) a = map (\<lambda>x. 1 / (1 + \<bar>x - np_median a\<bar>) * x) a"
  by (simp add: weights_eq zip_map1 zip_same_conv_map)

lemma weighted_bounds:
  assumes ne: "a \<noteq> []"
  shows "np_min a \<le> np_sum (map2 (*) (weights a) a) / np_sum (weights a)"
    and "np_sum (map2 (*) (weights a) a) / np_sum (weights a) \<le> np_max a"
proof -
  let ?f = "\<lambda>x. 1 / (1 + \<bar>x - np_median a\<bar>)"
  have prod: "np_sum (map2 (*) (weights a) a) = sum_list (map (\<lambda>x. ?f x * x) a)"
    by (simp add: weighted_products np_sum_def)
  have sw: "np_sum (weights a) * c = sum_list (map (\<lambda>x. ?f x * c) a)" for c
    unfolding np_sum_def weights_eq by (simp add: sum_list_mult_const [symmetric] o_def)
  have lo: "np_sum (weights a) * np_min a \<le> np_sum (map2 (*) (weights a) a)"
    unfolding prod sw by (rule sum_list_mono) (simp add: divide_right_mono np_min_le)
  have hi: "np_sum (map2 (*) (weights a) a) \<le> np_sum (weights a) * np_max a"
    unfolding prod sw by (rule sum_list_mono) (simp add: divide_right_mono np_max_ge)
  note pos = weights_sum_pos [OF ne]
  show "np_min a \<le> np_sum (map2 (*) (weights a) a) / np_sum (weights a)"
    using lo pos by (simp add: pos_le_divide_eq mult.commute)
  show "np_sum (map2 (*) (weights a) a) / np_sum (weights a) \<le> np_max a"
    using hi pos by (simp add: pos_divide_le_eq mult.commute)
qed

lemma compute_Inr:
  "3 \<le> length xs \<Longrightarrow> compute xs = Inr (calculate_all \<lparr>measurements = sort xs, n = length xs\<rparr>)"
  by (simp add: compute_def IOPCalculator_init_def)

lemma np_min_sort: "np_min (sort a) = np_min a" by (simp add: np_min_def)
lemma np_max_sort: "np_max (sort a) = np_max a" by (simp add: np_max_def)

text \<open>Each estimate is the rounding to one decimal of a value between the minimum and
  the maximum of the sample (in exact arithmetic).\<close>

lemma estimate_values:
  assumes n: "3 \<le> length a"
  shows "list_all (\<lambda>e. \<exists>y. np_min a \<le> y \<and> y \<le> np_max a \<and> e = round_nd y 1)
     [calculate_safe_iop a, calculate_possible_iop a, calculate_clinical_iop a,
      calculate_mean_iop a, calculate_trimean_iop a, calculate_iqm_iop a,
      calculate_winsorized_iop a, calculate_weighted_iop a]"
proof -
  have ne: "a \<noteq> []" using n by auto
  have mm: "np_min a \<le> np_max a" using np_min_le [OF np_max_in [OF ne]] .
  have 1: "\<exists>y. np_min a \<le> y \<and> y \<le> np_max a \<and> calculate_safe_iop a = round_nd y 1"
    using n safe_bounds [OF n] by (auto simp: calculate_safe_iop_def Let_def)
  have 2: "\<exists>y. np_min a \<le> y \<and> y \<le> np_max a \<and> calculate_possible_iop a = round_nd y 1"
    using np_median_bounds [OF ne] by (auto simp: calculate_possible_iop_def)
  have "np_min a \<le> (np_min a + np_max a) / 2" "(np_min a + np_max a) / 2 \<le> np_max a"
    using mm by simp_all
  then have 3: "\<exists>y. np_min a \<le> y \<and> y \<le> np_max a \<and> calculate_clinical_iop a = round_nd y 1"
    unfolding calculate_clinical_iop_def by blast
  have "\<And>x. x \<in> set a \<Longrightarrow> np_min a \<le> x \<and> x \<le> np_max a"
    by (simp add: np_min_le np_max_ge)
  from np_mean_bounds [OF ne this]
  have 4: "\<exists>y. np_min a \<le> y \<and> y \<le> np_max a \<and> calculate_mean_iop a = round_nd y 1"
    unfolding calculate_mean_iop_def by blast
  have q1: "np_min a \<le> np_percentile a 25" "np_percentile a 25 \<le> np_max a"
    using np_percentile_bounds [OF ne, of 25] by simp_all
  have q3: "np_min a \<le> np_percentile a 75" "np_percentile a 75 \<le> np_max a"
    using np_percentile_bounds [OF ne, of 75] by simp_all
  have "np_min a \<le> (np_percentile a 25 + 2 * np_median a + np_percentile a 75) / 4"
    "(np_percentile a 25 + 2 * np_median a + np_percentile a 75) / 4 \<le> np_max a"
    using q1 q3 np_median_bounds [OF ne] by simp_all
  then have 5: "\<exists>y. np_min a \<le> y \<and> y \<le> np_max a \<and> calculate_trimean_iop a = round_nd y 1"
    unfolding calculate_trimean_iop_def Let_def by blast
  note 6 = iqm_value [OF ne]
  have 7: "\<exists>y. np_min a \<le> y \<and> y \<le> np_max a \<and> calculate_winsorized_iop a = round_nd y 1"
    using n winsorized_bounds [OF n]
    by (auto simp: calculate_winsorized_iop_def np_sort_def Let_def)
  have 8: "\<exists>y. np_min a \<le> y \<and> y \<le> np_max a \<and> calculate_weighted_iop a = round_nd y 1"
    using weighted_bounds [OF ne] unfolding calculate_weighted_iop_def Let_def by blast
  show ?thesis using 1 2 3 4 5 6 7 8 by simp
qed

lemma near_range:
  assumes "\<exists>y. lo \<le> y \<and> y \<le> hi \<and> e = round_nd y 1"
  shows "lo - 6 / 100 \<le> e \<and> e \<le> hi + 6 / 100"
proof -
  from assms obtain y where y: "lo \<le> y" "y \<le> hi" "e = round_nd y 1" by blast
  have "\<bar>round_nd y 1 - y\<bar> \<le> 1 / 20" by (rule round_nd_close)
  then show ?thesis unfolding y(3) using y(1,2) by linarith
qed

lemma computed_fields:
  assumes "3 \<le> length xs" and "compute xs = Inr r"
  shows "[safe_iop r, possible_iop r, clinical_iop r, mean_iop r,
          trimean_iop r, iqm_iop r, winsorized_iop r, weighted_iop r]
       = [calculate_safe_iop (sort xs), calculate_possible_iop (sort xs),
          calculate_clinical_iop (sort xs), calculate_mean_iop (sort xs),
          calculate_trimean_iop (sort xs), calculate_iqm_iop (sort xs),
          calculate_winsorized_iop (sort xs), calculate_weighted_iop (sort xs)]"
    and "std_dev r = get_standard_deviation (sort xs)"
proof -
  have r: "r = calculate_all \<lparr>measurements = sort xs, n = length xs\<rparr>"
    using assms by (simp add: compute_Inr)
  show "[safe_iop r, possible_iop r, clinical_iop r, mean_iop r,
          trimean_iop r, iqm_iop r, winsorized_iop r, weighted_iop r]
       = [calculate_safe_iop (sort xs), calculate_possible_iop (sort xs),
          calculate_clinical_iop (sort xs), calculate_mean_iop (sort xs),
          calculate_trimean_iop (sort xs), calculate_iqm_iop (sort xs),
          calculate_winsorized_iop (sort xs), calculate_weighted_iop (sort xs)]"
    by (simp add: r calculate_all_def get_range_def)
  show "std_dev r = get_standard_deviation (sort xs)"
    by (simp add: r calculate_all_def get_range_def)
qed

section \<open>The estimates and the observed range\<close>

text \<open>
  Claim C4, as the code has it. For a valid sample (at least 3 values, each between 0
  and 100), each of the eight estimates of \<open>calculate_all\<close> lies within 0.06 of the
  observed range: it is not below the minimum minus 0.06 and not above the maximum plus
  0.06. The estimates are rounded to one decimal, so they can leave the range by half
  a unit of that decimal; the margin above 0.05 covers the rounding error of the
  program's binary64 arithmetic.
\<close>

theorem estimates_near_observed_range:
  assumes "3 \<le> length xs" and "list_all (\<lambda>x. 0 \<le> x \<and> x \<le> 100) xs"
    and "compute xs = Inr r"
  shows "list_all (\<lambda>e. np_min xs - 0.06 \<le> e \<and> e \<le> np_max xs + 0.06)
        [safe_iop r, possible_iop r, clinical_iop r, mean_iop r,
         trimean_iop r, iqm_iop r, winsorized_iop r, weighted_iop r]"
proof -
  have l: "3 \<le> length (sort xs)" using assms(1) by simp
  have "list_all (\<lambda>e. \<exists>y. np_min xs \<le> y \<and> y \<le> np_max xs \<and> e = round_nd y 1)
        [safe_iop r, possible_iop r, clinical_iop r, mean_iop r,
         trimean_iop r, iqm_iop r, winsorized_iop r, weighted_iop r]"
    using estimate_values [OF l]
    unfolding computed_fields(1) [OF assms(1,3)] np_min_sort np_max_sort .
  then show ?thesis
    unfolding list_all_iff using near_range [of "np_min xs" "np_max xs"] by auto
qed

theorem estimates_near_observed_range_witness:
  "list_all (\<lambda>e. np_min [12.05, 12.05, 12.05] - 0.06 \<le> e \<and> e \<le> np_max [12.05, 12.05, 12.05] + 0.06)
     [safe_iop (projr (compute [12.05, 12.05, 12.05])),
      possible_iop (projr (compute [12.05, 12.05, 12.05])),
      clinical_iop (projr (compute [12.05, 12.05, 12.05])),
      mean_iop (projr (compute [12.05, 12.05, 12.05])),
      trimean_iop (projr (compute [12.05, 12.05, 12.05])),
      iqm_iop (projr (compute [12.05, 12.05, 12.05])),
      winsorized_iop (projr (compute [12.05, 12.05, 12.05])),
      weighted_iop (projr (compute [12.05, 12.05, 12.05]))]"
proof -
  have l: "3 \<le> length [12.05, 12.05, 12.05::real]" by simp
  have v: "list_all (\<lambda>x. 0 \<le> x \<and> x \<le> 100) [12.05, 12.05, 12.05::real]" by simp
  have c: "compute [12.05, 12.05, 12.05] = Inr (projr (compute [12.05, 12.05, 12.05]))"
    using compute_Inr [OF l] by simp
  from estimates_near_observed_range [OF l v c] show ?thesis .
qed

text \<open>Against C4 as stated: for the sample \<open>[12.34, 12.34, 12.34]\<close> the Safe IOP is
  12.3, below the unrounded minimum 12.34.\<close>

theorem safe_iop_below_minimum:
  "IOPCalculator_init [12.34, 12.34, 12.34]
     = Inr \<lparr>measurements = [12.34, 12.34, 12.34], n = 3\<rparr>
   \<and> safe_iop (calculate_all \<lparr>measurements = [12.34, 12.34, 12.34], n = 3\<rparr>) = 12.3
   \<and> np_min [12.34, 12.34, 12.34] = 12.34
   \<and> \<not> np_min [12.34, 12.34, 12.34]
        \<le> safe_iop (calculate_all \<lparr>measurements = [12.34, 12.34, 12.34], n = 3\<rparr>)"
  by (simp add: IOPCalculator_init_def calculate_all_def get_range_def calculate_safe_iop_def
      np_sum_def np_min_def np_max_def round_nd_def rint_def Let_def)

section \<open>Samples of three values and of equal values\<close>

lemma rint_zero: "rint 0 = 0" by (simp add: rint_def)

lemma round_nd_fixed: "round_nd v 1 = v \<longleftrightarrow> (\<exists>j::int. v = of_int j / 10)"
proof
  assume "round_nd v 1 = v"
  then have "v = of_int (rint (v * 10)) / 10" by (simp add: round_nd_def)
  then show "\<exists>j::int. v = of_int j / 10" ..
next
  assume "\<exists>j::int. v = of_int j / 10"
  then obtain j :: int where "v = of_int j / 10" ..
  then show "round_nd v 1 = v" by (simp add: round_nd_def rint_of_int)
qed

lemma replicate_min_max:
  assumes "0 < k"
  shows "np_min (replicate k v) = v" and "np_max (replicate k v) = v"
  using assms by (simp_all add: np_min_def np_max_def)

lemma replicate_mean: "0 < k \<Longrightarrow> np_mean (replicate k v) = v"
  by (simp add: np_mean_def sum_list_replicate)

lemma replicate_std: "np_std_ddof1 (replicate k v) = 0"
proof (cases "0 < k")
  case True
  have "map (\<lambda>x. (x - v)\<^sup>2) (replicate k v) = replicate k 0" by simp
  then show ?thesis using True by (simp add: np_std_ddof1_def replicate_mean sum_list_replicate)
next
  case False
  then show ?thesis by (simp add: np_std_ddof1_def)
qed

text \<open>
  Claim C5, as the code has it. For a valid sample of exactly 3 values the divisor
  \<open>n - 2\<close> is 1, and Safe IOP is the middle value up to the rounding to one decimal:
  it lies within 0.06 of the middle value, and it is the middle value itself when that
  value has at most one decimal.
\<close>

theorem safe_iop_three_values:
  assumes "length a = 3" and "list_all (\<lambda>x. 0 \<le> x \<and> x \<le> 100) a"
  shows "real (length a - 2) = 1
    \<and> \<bar>calculate_safe_iop a - sort a ! 1\<bar> \<le> 0.06
    \<and> ((\<exists>j::int. sort a ! 1 = of_int j / 10) \<longrightarrow> calculate_safe_iop a = sort a ! 1)"
proof -
  define b where "b = sort a"
  have "length b = 3" using assms(1) by (simp add: b_def)
  then obtain p q r where "b = [p, q, r]"
    by (auto simp: length_Suc_conv numeral_3_eq_3)
  then have s: "sort a = [p, q, r]" by (simp add: b_def)
  have "sorted (sort a)" by simp
  then have o: "p \<le> q" "q \<le> r" unfolding s by simp_all
  have "set a = {p, q, r}" using s by (metis set_sort list.simps(15) empty_set)
  then have m: "np_min a = p" "np_max a = r"
    using o by (simp_all add: np_min_def np_max_def min_def max_def)
  have "sum_list a = sum_list (sort a)" by (metis mset_sort sum_mset_sum_list)
  then have t: "np_sum a = p + q + r" by (simp add: s np_sum_def)
  have c: "calculate_safe_iop a = round_nd (sort a ! 1) 1"
    using assms(1) by (simp add: calculate_safe_iop_def Let_def m t s)
  have "\<bar>round_nd (sort a ! 1) 1 - sort a ! 1\<bar> \<le> 1 / 20" by (rule round_nd_close)
  then have d: "\<bar>calculate_safe_iop a - sort a ! 1\<bar> \<le> 0.06"
    unfolding c by (rule order_trans) simp
  show ?thesis
    using assms(1) d round_nd_fixed [of "sort a ! 1"] unfolding c by simp
qed

theorem safe_iop_three_values_witness:
  "\<bar>calculate_safe_iop [8, 1, 4.56] - 4.56\<bar> \<le> 0.06 \<and> calculate_safe_iop [14.5, 12, 13.1] = 13.1"
proof -
  have "\<bar>calculate_safe_iop [8, 1, 4.56] - 4.56\<bar> \<le> 0.06"
    using safe_iop_three_values [of "[8, 1, 4.56]"] by simp
  moreover have "\<exists>j::int. (13.1::real) = of_int j / 10" by (rule exI [of _ 131]) simp
  then have "calculate_safe_iop [14.5, 12, 13.1] = 13.1"
    using safe_iop_three_values [of "[14.5, 12, 13.1]"] by simp
  ultimately show ?thesis ..
qed

text \<open>Against C5 as stated: for \<open>[1, 4.56, 8]\<close> the Safe IOP is 4.6, not the middle
  value 4.56.\<close>

theorem safe_iop_three_values_rounded:
  "calculate_safe_iop [1, 4.56, 8] = 4.6 \<and> sort [1, 4.56, 8::real] ! 1 = 4.56
   \<and> calculate_safe_iop [1, 4.56, 8] \<noteq> sort [1, 4.56, 8] ! 1"
  by (simp add: calculate_safe_iop_def np_sum_def np_min_def np_max_def round_nd_def rint_def Let_def)

text \<open>
  Claim C7, as the code has it. For a valid sample of \<open>k \<ge> 3\<close> equal values \<open>v\<close>,
  each of the eight estimates lies within 0.06 of \<open>v\<close> and is \<open>v\<close> itself when \<open>v\<close>
  has at most one decimal, and the standard deviation is 0.
\<close>

theorem equal_values_estimates:
  assumes "3 \<le> k" and "0 \<le> v" and "v \<le> 100" and "compute (replicate k v) = Inr r"
  shows "list_all (\<lambda>e. \<bar>e - v\<bar> \<le> 0.06 \<and> ((\<exists>j::int. v = of_int j / 10) \<longrightarrow> e = v))
        [safe_iop r, possible_iop r, clinical_iop r, mean_iop r,
         trimean_iop r, iqm_iop r, winsorized_iop r, weighted_iop r]
    \<and> std_dev r = 0"
proof -
  have k: "0 < k" using assms(1) by simp
  have l: "3 \<le> length (replicate k v)" using assms(1) by simp
  have s: "sort (replicate k v) = replicate k v" by (simp add: sorted_sort_id)
  have sd: "std_dev r = 0"
    unfolding computed_fields(2) [OF l assms(4)] s
    by (simp add: get_standard_deviation_def replicate_std round_nd_def rint_zero)
  have "list_all (\<lambda>e. \<exists>y. v \<le> y \<and> y \<le> v \<and> e = round_nd y 1)
        [safe_iop r, possible_iop r, clinical_iop r, mean_iop r,
         trimean_iop r, iqm_iop r, winsorized_iop r, weighted_iop r]"
    using estimate_values [OF l]
    unfolding computed_fields(1) [OF l assms(4)] s replicate_min_max [OF k] .
  then have e: "list_all (\<lambda>e. e = round_nd v 1)
        [safe_iop r, possible_iop r, clinical_iop r, mean_iop r,
         trimean_iop r, iqm_iop r, winsorized_iop r, weighted_iop r]"
    unfolding list_all_iff by (auto simp: antisym_conv)
  have "\<bar>round_nd v 1 - v\<bar> \<le> 1 / 20" by (rule round_nd_close)
  then have c: "\<bar>round_nd v 1 - v\<bar> \<le> 0.06" by (rule order_trans) simp
  have f: "(\<exists>j::int. v = of_int j / 10) \<longrightarrow> round_nd v 1 = v"
    using round_nd_fixed [of v] by simp
  show ?thesis using e c f sd unfolding list_all_iff by auto
qed

theorem equal_values_estimates_witness:
  "list_all (\<lambda>e. \<bar>e - 12.05\<bar> \<le> 0.06)
     [safe_iop (projr (compute (replicate 3 12.05))),
      possible_iop (projr (compute (replicate 3 12.05)))]
   \<and> mean_iop (projr (compute (replicate 4 12.1))) = 12.1
   \<and> std_dev (projr (compute (replicate 3 12.05))) = 0"
proof -
  have l: "3 \<le> (3::nat)" "3 \<le> (4::nat)" by simp_all
  have "3 \<le> length (replicate 3 (12.05::real))" by simp
  from compute_Inr [OF this]
  have c: "compute (replicate 3 12.05) = Inr (projr (compute (replicate 3 12.05)))" by simp
  have "3 \<le> length (replicate 4 (12.1::real))" by simp
  from compute_Inr [OF this]
  have d: "compute (replicate 4 12.1) = Inr (projr (compute (replicate 4 12.1)))" by simp
  have j: "\<exists>j::int. (12.1::real) = of_int j / 10" by (rule exI [of _ 121]) simp
  have "list_all (\<lambda>e. \<bar>e - 12.05\<bar> \<le> 0.06)
     [safe_iop (projr (compute (replicate 3 12.05))),
      possible_iop (projr (compute (replicate 3 12.05)))]
   \<and> std_dev (projr (compute (replicate 3 12.05))) = 0"
    using equal_values_estimates [OF l(1) _ _ c] by simp
  moreover have "mean_iop (projr (compute (replicate 4 12.1))) = 12.1"
    using equal_values_estimates [OF l(2) _ _ d] j by simp
  ultimately show ?thesis by simp
qed

text \<open>Against C7 as stated: for four readings of 14.25 the Mean IOP is 14.2.\<close>

theorem equal_values_mean_rounded:
  "IOPCalculator_init [14.25, 14.25, 14.25, 14.25]
     = Inr \<lparr>measurements = [14.25, 14.25, 14.25, 14.25], n = 4\<rparr>
   \<and> mean_iop (calculate_all \<lparr>measurements = [14.25, 14.25, 14.25, 14.25], n = 4\<rparr>) = 14.2
   \<and> mean_iop (calculate_all \<lparr>measurements = [14.25, 14.25, 14.25, 14.25], n = 4\<rparr>) \<noteq> 14.25"
  by (simp add: IOPCalculator_init_def calculate_all_def get_range_def calculate_mean_iop_def
      np_mean_def round_nd_def rint_def Let_def)

section \<open>The weights of the weighted mean\<close>

text \<open>
  Claim C8. For a sample of at least 3 values, every denominator
  \<open>1 + |x - median|\<close> is at least 1, every weight is positive (and at most 1), the sum of
  the weights is positive, and Weighted IOP is the rounded quotient by that sum: the
  division is never by zero.
\<close>

theorem weights_positive:
  assumes "3 \<le> length a"
  shows "list_all (\<lambda>x. 1 \<le> 1 + \<bar>x - np_median a\<bar>) a
    \<and> weights a = map (\<lambda>x. 1 / (1 + \<bar>x - np_median a\<bar>)) a
    \<and> list_all (\<lambda>w. 0 < w \<and> w \<le> 1) (weights a)
    \<and> 0 < np_sum (weights a)
    \<and> calculate_weighted_iop a
        = round_nd (np_sum (map2 (*) (weights a) a) / np_sum (weights a)) 1"
proof -
  have ne: "a \<noteq> []" using assms by auto
  have d: "1 \<le> 1 + \<bar>x - np_median a\<bar>" for x by simp
  then have p: "0 < 1 + \<bar>x - np_median a\<bar>" for x by (rule less_le_trans [OF zero_less_one])
  have "list_all (\<lambda>w. 0 < w \<and> w \<le> 1) (weights a)"
    using d p by (simp add: weights_eq list_all_iff)
  then show ?thesis
    using weights_sum_pos [OF ne]
    by (simp add: weights_eq [symmetric] list_all_iff calculate_weighted_iop_def Let_def)
qed

theorem weights_positive_witness: "0 < np_sum (weights [12, 12, 13, 14, 15])"
proof -
  have "3 \<le> length [12, 12, 13, 14, 15::real]" by simp
  from weights_positive [OF this] show ?thesis by blast
qed

section \<open>Order of entry\<close>

text \<open>
  Claim C9. For a list of at least 3 measurements and any permutation of it, the
  constructor builds the same calculator (it stores the sorted copy), so
  \<open>calculate_all\<close> succeeds and returns the same record for both.
\<close>

theorem compute_permutation_invariant:
  assumes "3 \<le> length xs" and "mset ys = mset xs"
  shows "IOPCalculator_init ys = IOPCalculator_init xs
    \<and> compute xs = Inr (calculate_all \<lparr>measurements = sort xs, n = length xs\<rparr>)
    \<and> compute ys = compute xs"
proof -
  have "sort ys = sort xs" using assms(2) by (simp add: properties_for_sort)
  moreover have "length ys = length xs" using assms(2) by (rule mset_eq_length)
  ultimately show ?thesis using assms(1)
    by (simp add: compute_def IOPCalculator_init_def)
qed

theorem compute_permutation_invariant_witness:
  "compute [15, 12, 14] = compute [12, 14, 15]"
  using compute_permutation_invariant [of "[12, 14, 15]" "[15, 12, 14]"] by simp

section \<open>The round trip of the specification\<close>

text \<open>
  Claim C6, as the code has it. For the input text \<open>12, 14, 13, 15, 12\<close> validation
  yields the values in their order of entry, \<open>[12, 14, 13, 15, 12]\<close>; the calculator
  built from them holds the sorted sample \<open>[12, 12, 13, 14, 15]\<close> and computes
  Safe IOP 13.0, Mean IOP 13.2, Possible IOP 13.0, Clinical IOP 13.5 and variability
  3.0, whose confidence note is the one of the tier \<open>good\<close>.
\<close>

theorem round_trip_example:
  "validate_measurements py_float ''12, 14, 13, 15, 12'' = Inr (map Finite [12, 14, 13, 15, 12])
   \<and> IOPCalculator_init [12, 14, 13, 15, 12] = Inr \<lparr>measurements = [12, 12, 13, 14, 15], n = 5\<rparr>
   \<and> safe_iop (calculate_all \<lparr>measurements = [12, 12, 13, 14, 15], n = 5\<rparr>) = 13.0
   \<and> mean_iop (calculate_all \<lparr>measurements = [12, 12, 13, 14, 15], n = 5\<rparr>) = 13.2
   \<and> possible_iop (calculate_all \<lparr>measurements = [12, 12, 13, 14, 15], n = 5\<rparr>) = 13.0
   \<and> clinical_iop (calculate_all \<lparr>measurements = [12, 12, 13, 14, 15], n = 5\<rparr>) = 13.5
   \<and> variability (calculate_all \<lparr>measurements = [12, 12, 13, 14, 15], n = 5\<rparr>) = 3.0
   \<and> get_confidence_note (variability (calculate_all \<lparr>measurements = [12, 12, 13, 14, 15], n = 5\<rparr>))
       = ''Good measurement consistency - Moderate confidence''"
proof -
  have v: "validate_measurements py_float ''12, 14, 13, 15, 12'' = Inr (map Finite [12, 14, 13, 15, 12])"
    by code_simp
  have i: "IOPCalculator_init [12, 14, 13, 15, 12] = Inr \<lparr>measurements = [12, 12, 13, 14, 15], n = 5\<rparr>"
    by (simp add: IOPCalculator_init_def)
  have e: "calculate_safe_iop [12, 12, 13, 14, 15] = 13"
    "calculate_mean_iop [12, 12, 13, 14, 15] = 13.2"
    "calculate_possible_iop [12, 12, 13, 14, 15] = 13"
    "calculate_clinical_iop [12, 12, 13, 14, 15] = 13.5"
    "get_variability [12, 12, 13, 14, 15] = 3"
    by (simp_all add: calculate_safe_iop_def calculate_mean_iop_def calculate_possible_iop_def
        calculate_clinical_iop_def get_variability_def np_sum_def np_mean_def np_min_def np_max_def
        np_median_def round_nd_def rint_def Let_def)
  have g: "get_confidence_note 3 = ''Good measurement consistency - Moderate confidence''"
    by (simp add: get_confidence_note_def VARIABILITY_excellent_def VARIABILITY_good_def)
  show ?thesis
    using v i e g by (simp add: calculate_all_def get_range_def)
qed

text \<open>Against C6 as stated: validation does not yield the sorted sample.\<close>

theorem round_trip_validation_unsorted:
  "validate_measurements py_float ''12, 14, 13, 15, 12'' \<noteq> Inr (map Finite [12, 12, 13, 14, 15])"
proof -
  have "validate_measurements py_float ''12, 14, 13, 15, 12'' = Inr (map Finite [12, 14, 13, 15, 12])"
    by code_simp
  then show ?thesis by simp
qed

end
